theory Spec2Isabelle
  imports Main
begin

section \<open>Data model\<close>

text \<open>
  The application consists of a utility module (\<^verbatim>\<open>src/utils/permissions.ts\<close>) and the
  content-viewer screen \<^verbatim>\<open>WebViewScreen\<close>. Both talk to the operating system through the
  library \<^verbatim>\<open>react-native-permissions\<close>, whose types are reproduced here.
\<close>

text \<open>\<^verbatim>\<open>export type PermissionType = 'camera' | 'microphone'\<close>\<close>

datatype PermissionType = Camera | Microphone

text \<open>The string a \<^verbatim>\<open>PermissionType\<close> is at run time (used as a computed object key and
  inside template strings).\<close>

fun type_string :: "PermissionType \<Rightarrow> string" where
  "type_string Camera = ''camera''"
| "type_string Microphone = ''microphone''"

text \<open>\<^verbatim>\<open>Platform.OS\<close> of React Native.\<close>

datatype PlatformOS = Ios | Android | Windows | Macos | Web

text \<open>The four platform permission identifiers of \<^verbatim>\<open>PERMISSIONS\<close> that the code names.\<close>

datatype Permission = IOS_CAMERA | IOS_MICROPHONE | ANDROID_CAMERA | ANDROID_RECORD_AUDIO

text \<open>\<^verbatim>\<open>PermissionStatus\<close>, the members of \<^verbatim>\<open>RESULTS\<close>.\<close>

datatype PermissionStatus = UNAVAILABLE | BLOCKED | DENIED | GRANTED | LIMITED

text \<open>A thrown JavaScript value (a rejected promise carries one).\<close>

datatype js_error = TypeError | SyntaxError | NativeError string

text \<open>
  JavaScript values as far as the code inspects them: what \<^verbatim>\<open>JSON.parse\<close> returns, and
  the constraints argument of \<^verbatim>\<open>getUserMedia\<close>. An object is the list of its own properties,
  each name once.
\<close>

datatype js_value =
    JUndefined
  | JNull
  | JBool bool
  | JNumber int
  | JString string
  | JArray "js_value list"
  | JObject "(string \<times> js_value) list"

text \<open>
  Property access \<^verbatim>\<open>v.name\<close>: a \<^verbatim>\<open>TypeError\<close> on \<^verbatim>\<open>null\<close> and \<^verbatim>\<open>undefined\<close>, the own
  property of an object, \<^verbatim>\<open>undefined\<close> otherwise (the two names the code reads, \<^verbatim>\<open>type\<close> and
  \<^verbatim>\<open>permission\<close>, \<^verbatim>\<open>video\<close> and \<^verbatim>\<open>audio\<close>, are on no prototype).
\<close>

fun js_get :: "js_value \<Rightarrow> string \<Rightarrow> js_error + js_value" where
  "js_get JUndefined name = Inl TypeError"
| "js_get JNull name = Inl TypeError"
| "js_get (JObject props) name =
     (case map_of props name of None \<Rightarrow> Inr JUndefined | Some v \<Rightarrow> Inr v)"
| "js_get v name = Inr JUndefined"


text \<open>A button of \<^verbatim>\<open>Alert.alert\<close>; the only \<^verbatim>\<open>onPress\<close> handler in the code opens the settings.\<close>

datatype press_action = OpenSettings

record AlertButton =
  button_text :: string
  button_style :: "string option"
  onPress :: "press_action option"

text \<open>The effects the code has on the outside, in program order.\<close>

datatype event =
    OsCheck Permission
  | OsRequest Permission
  | ConsoleError string js_error
  | ConsoleWarn string
  | AlertShown string string "AlertButton list"
  | WebViewGoBack
  | OnGoBack

text \<open>
  The world the code runs in: the state of the operating system's permission subsystem, the
  trace of effects so far, and the React state of the mounted \<^verbatim>\<open>WebViewScreen\<close>. The state
  \<^verbatim>\<open>permissionsGranted\<close> is a JavaScript object, a map from property names to booleans;
  \<^verbatim>\<open>webViewRef\<close> tells whether \<^verbatim>\<open>webViewRef.current\<close> is non-null.
\<close>

record 'os world =
  os :: 'os
  trace :: "event list"
  isLoading :: bool
  canGoBack :: bool
  permissionsGranted :: "string \<rightharpoonup> bool"
  webViewRef :: bool

text \<open>
  What the code imports and does not define: the platform, the two calls of
  \<^verbatim>\<open>react-native-permissions\<close> (each may reject, and may change the state of the operating
  system) and \<^verbatim>\<open>JSON.parse\<close> (which may throw).
\<close>

record 'os env =
  Platform_OS :: PlatformOS
  check :: "Permission \<Rightarrow> 'os \<Rightarrow> (js_error + PermissionStatus) \<times> 'os"
  request :: "Permission \<Rightarrow> 'os \<Rightarrow> (js_error + PermissionStatus) \<times> 'os"
  JSON_parse :: "string \<Rightarrow> js_error + js_value"

definition emit :: "event \<Rightarrow> 'os world \<Rightarrow> 'os world" where
  "emit ev w = w\<lparr>trace := trace w @ [ev]\<rparr>"

text \<open>The effects added between an earlier world and a later one.\<close>

definition effects_since :: "'os world \<Rightarrow> 'os world \<Rightarrow> event list" where
  "effects_since w w' = drop (length (trace w)) (trace w')"

text \<open>Calling the library: the call is recorded, the operating system answers.\<close>

definition call_check :: "'os env \<Rightarrow> Permission \<Rightarrow> 'os world \<Rightarrow> (js_error + PermissionStatus) \<times> 'os world" where
  "call_check E p w =
     (let (r, s) = check E p (os w) in (r, (emit (OsCheck p) w)\<lparr>os := s\<rparr>))"

definition call_request :: "'os env \<Rightarrow> Permission \<Rightarrow> 'os world \<Rightarrow> (js_error + PermissionStatus) \<times> 'os world" where
  "call_request E p w =
     (let (r, s) = request E p (os w) in (r, (emit (OsRequest p) w)\<lparr>os := s\<rparr>))"

section \<open>The utility module \<^verbatim>\<open>permissions.ts\<close>\<close>

record PermissionResult =
  granted :: bool
  status :: PermissionStatus

definition getPermissionConstant :: "PlatformOS \<Rightarrow> PermissionType \<Rightarrow> Permission" where
  "getPermissionConstant platform type =
     (if platform = Ios
      then (if type = Camera then IOS_CAMERA else IOS_MICROPHONE)
      else (if type = Camera then ANDROID_CAMERA else ANDROID_RECORD_AUDIO))"

text \<open>\<^verbatim>\<open>checkPermission\<close>: no \<^verbatim>\<open>try\<close>, so a rejection of \<^verbatim>\<open>check\<close> is the function's own.\<close>

definition checkPermission :: "'os env \<Rightarrow> PermissionType \<Rightarrow> 'os world \<Rightarrow> (js_error + PermissionResult) \<times> 'os world" where
  "checkPermission E type w =
     (let permission = getPermissionConstant (Platform_OS E) type;
          (r, w') = call_check E permission w
      in case r of
           Inl e \<Rightarrow> (Inl e, w')
         | Inr st \<Rightarrow> (Inr \<lparr>granted = (st = GRANTED), status = st\<rparr>, w'))"

text \<open>\<^verbatim>\<open>requestPermission\<close> of the utility module, likewise without a \<^verbatim>\<open>try\<close>.\<close>

definition requestPermission :: "'os env \<Rightarrow> PermissionType \<Rightarrow> 'os world \<Rightarrow> (js_error + PermissionResult) \<times> 'os world" where
  "requestPermission E type w =
     (let permission = getPermissionConstant (Platform_OS E) type;
          (r, w') = call_request E permission w
      in case r of
           Inl e \<Rightarrow> (Inl e, w')
         | Inr st \<Rightarrow> (Inr \<lparr>granted = (st = GRANTED), status = st\<rparr>, w'))"

text \<open>
  \<^verbatim>\<open>Promise.all\<close> of two promises. Both have been started; the result is the pair of their
  values, or the rejection that happened first. Which of two rejections is first is not
  decided by the code, so it is a parameter (\<open>True\<close>: the first promise settles first).
\<close>

definition promise_all2 :: "bool \<Rightarrow> js_error + 'a \<Rightarrow> js_error + 'b \<Rightarrow> js_error + ('a \<times> 'b)" where
  "promise_all2 first_wins a b =
     (case (a, b) of
        (Inr x, Inr y) \<Rightarrow> Inr (x, y)
      | (Inl e, Inr y) \<Rightarrow> Inl e
      | (Inr x, Inl e) \<Rightarrow> Inl e
      | (Inl e1, Inl e2) \<Rightarrow> Inl (if first_wins then e1 else e2))"

record CheckAllResult =
  camera :: PermissionResult
  microphone :: PermissionResult

record RequestAllResult = CheckAllResult +
  allGranted :: bool

text \<open>
  \<^verbatim>\<open>checkAllPermissions\<close> and \<^verbatim>\<open>requestAllPermissions\<close>: each call of the array literal runs
  up to its \<^verbatim>\<open>await\<close>, so the operating system is called for the camera first and for the
  microphone second, whatever the first call answers.
\<close>

definition checkAllPermissions :: "'os env \<Rightarrow> bool \<Rightarrow> 'os world \<Rightarrow> (js_error + CheckAllResult) \<times> 'os world" where
  "checkAllPermissions E first_wins w =
     (let (a, w1) = checkPermission E Camera w;
          (b, w2) = checkPermission E Microphone w1
      in case promise_all2 first_wins a b of
           Inl e \<Rightarrow> (Inl e, w2)
         | Inr (cam, mic) \<Rightarrow> (Inr \<lparr>camera = cam, microphone = mic\<rparr>, w2))"

definition requestAllPermissions :: "'os env \<Rightarrow> bool \<Rightarrow> 'os world \<Rightarrow> (js_error + RequestAllResult) \<times> 'os world" where
  "requestAllPermissions E first_wins w =
     (let (a, w1) = requestPermission E Camera w;
          (b, w2) = requestPermission E Microphone w1
      in case promise_all2 first_wins a b of
           Inl e \<Rightarrow> (Inl e, w2)
         | Inr (cam, mic) \<Rightarrow>
             (Inr \<lparr>camera = cam, microphone = mic,
                   allGranted = (granted cam \<and> granted mic)\<rparr>, w2))"

text \<open>
  \<^verbatim>\<open>showPermissionDeniedAlert\<close>: a modal with the buttons Cancel and Open Settings. The call
  of \<^verbatim>\<open>Alert.alert\<close> is named first, for the name of the permission.
\<close>

definition permission_denied_alert :: "string \<Rightarrow> event" where
  "permission_denied_alert permissionName =
     AlertShown
       (permissionName @ '' Permission Required'')
       (permissionName @ '' access is required for this feature. Would you like to open settings to enable it?'')
       [\<lparr>button_text = ''Cancel'', button_style = Some ''cancel'', onPress = None\<rparr>,
        \<lparr>button_text = ''Open Settings'', button_style = None, onPress = Some OpenSettings\<rparr>]"

definition showPermissionDeniedAlert :: "PermissionType \<Rightarrow> 'os world \<Rightarrow> 'os world" where
  "showPermissionDeniedAlert permissionType w =
     (let permissionName = (if permissionType = Camera then ''Camera'' else ''Microphone'')
      in emit (permission_denied_alert permissionName) w)"

text \<open>\<^verbatim>\<open>handlePermissionResult\<close>: requests, and alerts when the answer is \<^verbatim>\<open>RESULTS.BLOCKED\<close>.\<close>

definition handlePermissionResult :: "'os env \<Rightarrow> PermissionType \<Rightarrow> 'os world \<Rightarrow> (js_error + bool) \<times> 'os world" where
  "handlePermissionResult E type w =
     (let (r, w') = requestPermission E type w
      in case r of
           Inl e \<Rightarrow> (Inl e, w')
         | Inr result \<Rightarrow>
             (if \<not> granted result
              then (Inr False,
                    if status result = BLOCKED then showPermissionDeniedAlert type w' else w')
              else (Inr True, w')))"

section \<open>The screen \<^verbatim>\<open>WebViewScreen\<close>\<close>

text \<open>
  The state after the first commit: \<^verbatim>\<open>useState(true)\<close>, \<^verbatim>\<open>useState(false)\<close>,
  \<^verbatim>\<open>useState({camera: false, microphone: false})\<close>, and the reference of the rendered
  \<^verbatim>\<open>WebView\<close> attached.
\<close>

definition mount :: "'os \<Rightarrow> 'os world" where
  "mount s =
     \<lparr>os = s, trace = [], isLoading = True, canGoBack = False,
      permissionsGranted = [''camera'' \<mapsto> False, ''microphone'' \<mapsto> False],
      webViewRef = True\<rparr>"

text \<open>The state setters; \<^verbatim>\<open>setPermissionsGranted\<close> is called with an updater function.\<close>

definition setIsLoading :: "bool \<Rightarrow> 'os world \<Rightarrow> 'os world" where
  "setIsLoading b w = w\<lparr>isLoading := b\<rparr>"

definition setCanGoBack :: "bool \<Rightarrow> 'os world \<Rightarrow> 'os world" where
  "setCanGoBack b w = w\<lparr>canGoBack := b\<rparr>"

definition setPermissionsGranted :: "((string \<rightharpoonup> bool) \<Rightarrow> (string \<rightharpoonup> bool)) \<Rightarrow> 'os world \<Rightarrow> 'os world" where
  "setPermissionsGranted f w = w\<lparr>permissionsGranted := f (permissionsGranted w)\<rparr>"

text \<open>The handler of the hardware back button.\<close>

definition onBackPress :: "'os world \<Rightarrow> bool \<times> 'os world" where
  "onBackPress w =
     (if canGoBack w \<and> webViewRef w
      then (True, emit WebViewGoBack w)
      else (True, emit OnGoBack w))"

text \<open>
  \<^verbatim>\<open>requestPermission\<close> of the screen. The \<^verbatim>\<open>try\<close> block is the call of \<^verbatim>\<open>request\<close> and what
  follows it; the \<^verbatim>\<open>catch\<close> block logs and returns \<^verbatim>\<open>false\<close>.
\<close>

definition WebViewScreen_requestPermission :: "'os env \<Rightarrow> PermissionType \<Rightarrow> 'os world \<Rightarrow> (js_error + bool) \<times> 'os world" where
  "WebViewScreen_requestPermission E permissionType w =
     (let permission =
            (if Platform_OS E = Ios
             then (if permissionType = Camera then IOS_CAMERA else IOS_MICROPHONE)
             else (if permissionType = Camera then ANDROID_CAMERA else ANDROID_RECORD_AUDIO));
          (r, w1) = call_request E permission w
      in case r of
           Inr result \<Rightarrow>
             (let is_granted = (result = GRANTED);
                  w2 = setPermissionsGranted
                         (\<lambda>prev. prev(type_string permissionType \<mapsto> is_granted)) w1
              in (Inr is_granted, w2))
         | Inl error \<Rightarrow>
             (Inr False,
              emit (ConsoleError (''Error requesting '' @ type_string permissionType @ '' permission:'') error) w1))"

text \<open>The modal of the screen's \<^verbatim>\<open>requestAllPermissions\<close>, with its one button.\<close>

definition permissions_required_alert :: event where
  "permissions_required_alert =
     AlertShown ''Permissions Required''
       ''Camera and microphone permissions are required for this feature. Please enable them in your device settings.''
       [\<lparr>button_text = ''OK'', button_style = None, onPress = None\<rparr>]"

text \<open>\<^verbatim>\<open>requestAllPermissions\<close> of the screen: the camera is awaited, then the microphone.\<close>

definition WebViewScreen_requestAllPermissions :: "'os env \<Rightarrow> 'os world \<Rightarrow> (js_error + bool) \<times> 'os world" where
  "WebViewScreen_requestAllPermissions E w =
     (let (r1, w1) = WebViewScreen_requestPermission E Camera w
      in case r1 of
           Inl e \<Rightarrow> (Inl e, w1)
         | Inr cameraGranted \<Rightarrow>
             (let (r2, w2) = WebViewScreen_requestPermission E Microphone w1
              in case r2 of
                   Inl e \<Rightarrow> (Inl e, w2)
                 | Inr microphoneGranted \<Rightarrow>
                     (Inr (cameraGranted \<and> microphoneGranted),
                      if \<not> cameraGranted \<or> \<not> microphoneGranted
                      then emit permissions_required_alert w2
                      else w2)))"

text \<open>Awaiting a call and dropping its value.\<close>

definition discard :: "(js_error + 'a) \<times> 'os world \<Rightarrow> (js_error + unit) \<times> 'os world" where
  "discard rw = (case rw of (Inl e, w) \<Rightarrow> (Inl e, w) | (Inr x, w) \<Rightarrow> (Inr (), w))"

text \<open>The \<^verbatim>\<open>try\<close> block of \<^verbatim>\<open>handlePermissionRequest\<close>, on \<^verbatim>\<open>event.nativeEvent.data\<close>.\<close>

definition handlePermissionRequest_try :: "'os env \<Rightarrow> string \<Rightarrow> 'os world \<Rightarrow> (js_error + unit) \<times> 'os world" where
  "handlePermissionRequest_try E raw w =
     (case JSON_parse E raw of
        Inl e \<Rightarrow> (Inl e, w)
      | Inr data \<Rightarrow>
          (case js_get data ''type'' of
             Inl e \<Rightarrow> (Inl e, w)
           | Inr t \<Rightarrow>
               if t = JString ''PERMISSION_REQUEST''
               then (case js_get data ''permission'' of
                       Inl e \<Rightarrow> (Inl e, w)
                     | Inr p \<Rightarrow>
                         if p = JString ''camera''
                         then discard (WebViewScreen_requestPermission E Camera w)
                         else if p = JString ''microphone''
                         then discard (WebViewScreen_requestPermission E Microphone w)
                         else if p = JString ''all''
                         then discard (WebViewScreen_requestAllPermissions E w)
                         else (Inr (), w))
               else (Inr (), w)))"

text \<open>\<^verbatim>\<open>handlePermissionRequest\<close>: the \<^verbatim>\<open>catch\<close> block is empty.\<close>

definition handlePermissionRequest :: "'os env \<Rightarrow> string \<Rightarrow> 'os world \<Rightarrow> (js_error + unit) \<times> 'os world" where
  "handlePermissionRequest E raw w =
     (case handlePermissionRequest_try E raw w of
        (Inl error, w') \<Rightarrow> (Inr (), w')
      | (Inr u, w') \<Rightarrow> (Inr u, w'))"

text \<open>
  The events the mounted screen reacts to, with the handlers the component wires to them.
\<close>

datatype ui_event =
    HardwareBackPress
  | HeaderBackPress
  | LoadStart
  | LoadEnd
  | NavigationStateChange bool
  | Message string
  | LoadError
  | HttpError

text \<open>
  The handlers of the first five events and of the two errors are synchronous.
  \<^verbatim>\<open>handlePermissionRequest\<close> is \<^verbatim>\<open>async\<close> and \<^verbatim>\<open>onMessage\<close> does not await it: a message
  handler runs up to its first \<^verbatim>\<open>await\<close> and is then suspended, and other events are handled
  before it goes on. The functions above are the handlers run from start to end; below, the
  same code is cut at its \<^verbatim>\<open>await\<close> points.

  What is left to do when a call of the screen's \<^verbatim>\<open>requestPermission\<close> returns: nothing
  (the call came from \<^verbatim>\<open>handlePermissionRequest\<close>), the second request of
  \<^verbatim>\<open>requestAllPermissions\<close>, or its end, which knows \<^verbatim>\<open>cameraGranted\<close>.
\<close>

datatype cont = FromHandler | FromAllCamera | FromAllMicrophone bool

text \<open>
  A message handler in flight: suspended at \<^verbatim>\<open>await request(permission)\<close> with the answer
  the operating system will give, or back from \<^verbatim>\<open>requestPermission\<close> with its value and the
  caller not yet resumed, or at its end.
\<close>

datatype task =
    Awaiting PermissionType "js_error + PermissionStatus" cont
  | Resuming bool cont
  | Completed

record 'os screen =
  now :: "'os world"
  pending :: "task list"

definition mounted :: "'os \<Rightarrow> 'os screen" where
  "mounted s = \<lparr>now = mount s, pending = []\<rparr>"

text \<open>The screen's \<^verbatim>\<open>requestPermission\<close> up to its \<^verbatim>\<open>await\<close>: the call of \<^verbatim>\<open>request\<close> is made.\<close>

definition requestPermission_call :: "'os env \<Rightarrow> PermissionType \<Rightarrow> cont \<Rightarrow> 'os world \<Rightarrow> task \<times> 'os world" where
  "requestPermission_call E permissionType k w =
     (let permission =
            (if Platform_OS E = Ios
             then (if permissionType = Camera then IOS_CAMERA else IOS_MICROPHONE)
             else (if permissionType = Camera then ANDROID_CAMERA else ANDROID_RECORD_AUDIO));
          (r, w1) = call_request E permission w
      in (Awaiting permissionType r k, w1))"

text \<open>The screen's \<^verbatim>\<open>requestPermission\<close> from its \<^verbatim>\<open>await\<close> on, with what \<^verbatim>\<open>request\<close> settled to.\<close>

definition requestPermission_resume :: "PermissionType \<Rightarrow> js_error + PermissionStatus \<Rightarrow> 'os world \<Rightarrow> bool \<times> 'os world" where
  "requestPermission_resume permissionType r w1 =
     (case r of
        Inr result \<Rightarrow>
          (let is_granted = (result = GRANTED);
               w2 = setPermissionsGranted
                      (\<lambda>prev. prev(type_string permissionType \<mapsto> is_granted)) w1
           in (is_granted, w2))
      | Inl error \<Rightarrow>
          (False,
           emit (ConsoleError (''Error requesting '' @ type_string permissionType @ '' permission:'') error) w1))"

text \<open>
  \<^verbatim>\<open>handlePermissionRequest\<close> up to its first \<^verbatim>\<open>await\<close>: the message is parsed and inspected,
  and for a recognised message the first call of \<^verbatim>\<open>request\<close> is made. An exception before that
  is caught by the empty \<^verbatim>\<open>catch\<close> block.
\<close>

definition handlePermissionRequest_start :: "'os env \<Rightarrow> string \<Rightarrow> 'os world \<Rightarrow> task option \<times> 'os world" where
  "handlePermissionRequest_start E raw w =
     (case JSON_parse E raw of
        Inl e \<Rightarrow> (None, w)
      | Inr data \<Rightarrow>
          (case js_get data ''type'' of
             Inl e \<Rightarrow> (None, w)
           | Inr t \<Rightarrow>
               if t = JString ''PERMISSION_REQUEST''
               then (case js_get data ''permission'' of
                       Inl e \<Rightarrow> (None, w)
                     | Inr p \<Rightarrow>
                         if p = JString ''camera''
                         then map_prod Some id (requestPermission_call E Camera FromHandler w)
                         else if p = JString ''microphone''
                         then map_prod Some id (requestPermission_call E Microphone FromHandler w)
                         else if p = JString ''all''
                         then map_prod Some id (requestPermission_call E Camera FromAllCamera w)
                         else (None, w))
               else (None, w)))"

text \<open>The caller of \<^verbatim>\<open>requestPermission\<close> resumed with the value \<open>b\<close>.\<close>

fun continue_task :: "'os env \<Rightarrow> bool \<Rightarrow> cont \<Rightarrow> 'os world \<Rightarrow> task \<times> 'os world" where
  "continue_task E b FromHandler w = (Completed, w)"
| "continue_task E b FromAllCamera w =
     requestPermission_call E Microphone (FromAllMicrophone b) w"
| "continue_task E b (FromAllMicrophone cameraGranted) w =
     (Completed,
      if \<not> cameraGranted \<or> \<not> b then emit permissions_required_alert w else w)"

text \<open>
  What happens on the screen, one at a time: an event arrives and its handler runs up to its
  end or its first \<^verbatim>\<open>await\<close>; the request that a suspended handler waits for settles; a
  handler that is back from \<^verbatim>\<open>requestPermission\<close> goes on to its next \<^verbatim>\<open>await\<close> or its end.
  Handlers in flight are numbered in the order of their messages. The three kinds may follow
  each other in any order (JavaScript runs the third kind before any further event, so the
  orders taken here include all that occur); an occurrence that names no handler in the
  right state changes nothing.
\<close>

datatype occurrence = Event ui_event | Settle nat | Continue nat

fun step :: "'os env \<Rightarrow> 'os screen \<Rightarrow> occurrence \<Rightarrow> 'os screen" where
  "step E S (Event HardwareBackPress) = S\<lparr>now := snd (onBackPress (now S))\<rparr>"
| "step E S (Event HeaderBackPress) = S\<lparr>now := emit OnGoBack (now S)\<rparr>"
| "step E S (Event LoadStart) = S\<lparr>now := setIsLoading True (now S)\<rparr>"
| "step E S (Event LoadEnd) = S\<lparr>now := setIsLoading False (now S)\<rparr>"
| "step E S (Event (NavigationStateChange b)) = S\<lparr>now := setCanGoBack b (now S)\<rparr>"
| "step E S (Event (Message raw)) =
     (case handlePermissionRequest_start E raw (now S) of
        (None, w) \<Rightarrow> S\<lparr>now := w\<rparr>
      | (Some t, w) \<Rightarrow> \<lparr>now = w, pending = pending S @ [t]\<rparr>)"
| "step E S (Event LoadError) = S\<lparr>now := emit (ConsoleWarn ''WebView error: '') (now S)\<rparr>"
| "step E S (Event HttpError) = S\<lparr>now := emit (ConsoleWarn ''WebView HTTP error: '') (now S)\<rparr>"
| "step E S (Settle i) =
     (if i < length (pending S)
      then (case pending S ! i of
              Awaiting permissionType r k \<Rightarrow>
                (let (b, w) = requestPermission_resume permissionType r (now S)
                 in \<lparr>now = w, pending = (pending S)[i := Resuming b k]\<rparr>)
            | Resuming b k \<Rightarrow> S
            | Completed \<Rightarrow> S)
      else S)"
| "step E S (Continue i) =
     (if i < length (pending S)
      then (case pending S ! i of
              Awaiting permissionType r k \<Rightarrow> S
            | Resuming b k \<Rightarrow>
                (let (t, w) = continue_task E b k (now S)
                 in \<lparr>now = w, pending = (pending S)[i := t]\<rparr>)
            | Completed \<Rightarrow> S)
      else S)"

definition exec :: "'os env \<Rightarrow> occurrence list \<Rightarrow> 'os screen \<Rightarrow> 'os screen" where
  "exec E occs S = foldl (step E) S occs"

text \<open>
  A handler in flight that waits for \<^verbatim>\<open>request\<close> has its call in the trace \<open>tr\<close>.
\<close>

fun issued :: "'os env \<Rightarrow> event list \<Rightarrow> task \<Rightarrow> bool" where
  "issued E tr (Awaiting permissionType r k) =
     (OsRequest (getPermissionConstant (Platform_OS E) permissionType) \<in> set tr)"
| "issued E tr (Resuming b k) = True"
| "issued E tr Completed = True"

text \<open>
  A state of the screen with the two keys in the store, the reference to the \<^verbatim>\<open>WebView\<close>
  set, and the call of every waiting handler in the trace.
\<close>

definition steady :: "'os env \<Rightarrow> 'os screen \<Rightarrow> bool" where
  "steady E S \<longleftrightarrow>
     dom (permissionsGranted (now S)) = {''camera'', ''microphone''}
     \<and> webViewRef (now S)
     \<and> list_all (issued E (trace (now S))) (pending S)"

section \<open>The injected script\<close>



text \<open>\<^verbatim>\<open>JSON.stringify({type: 'PERMISSION_REQUEST', permission: p})\<close> for the two literals.\<close>

definition stringify_request :: "string \<Rightarrow> string" where
  \<open>stringify_request p = ''{"type":"PERMISSION_REQUEST","permission":"'' @ p @ ''"}''\<close>


section \<open>Reading traces\<close>

text \<open>The permissions the operating system was asked for, in order.\<close>

fun os_requests :: "event list \<Rightarrow> Permission list" where
  "os_requests [] = []"
| "os_requests (OsRequest p # evs) = p # os_requests evs"
| "os_requests (ev # evs) = os_requests evs"

text \<open>The button lists of the modals shown, in order.\<close>

fun alert_buttons :: "event list \<Rightarrow> AlertButton list list" where
  "alert_buttons [] = []"
| "alert_buttons (AlertShown title message buttons # evs) = buttons # alert_buttons evs"
| "alert_buttons (ev # evs) = alert_buttons evs"

text \<open>The failures logged with \<^verbatim>\<open>console.error\<close>, in order.\<close>

fun console_errors :: "event list \<Rightarrow> (string \<times> js_error) list" where
  "console_errors [] = []"
| "console_errors (ConsoleError m e # evs) = (m, e) # console_errors evs"
| "console_errors (ev # evs) = console_errors evs"

section \<open>A concrete environment\<close>

text \<open>
  An operating system that answers every camera request with one fixed outcome and every
  microphone request with another, and counts the calls; and a parser that knows the three
  messages of the injected script, \<^verbatim>\<open>null\<close> and the empty object.
\<close>

definition sample_parse :: "string \<Rightarrow> js_error + js_value" where
  "sample_parse raw =
     (if raw = stringify_request ''camera''
      then Inr (JObject [(''type'', JString ''PERMISSION_REQUEST''), (''permission'', JString ''camera'')])
      else if raw = stringify_request ''microphone''
      then Inr (JObject [(''type'', JString ''PERMISSION_REQUEST''), (''permission'', JString ''microphone'')])
      else if raw = stringify_request ''all''
      then Inr (JObject [(''type'', JString ''PERMISSION_REQUEST''), (''permission'', JString ''all'')])
      else if raw = ''null'' then Inr JNull
      else if raw = ''{}'' then Inr (JObject [])
      else Inl SyntaxError)"

definition sample_os :: "js_error + PermissionStatus \<Rightarrow> js_error + PermissionStatus \<Rightarrow> Permission \<Rightarrow> nat \<Rightarrow> (js_error + PermissionStatus) \<times> nat" where
  "sample_os cam mic p n =
     (if p = IOS_CAMERA \<or> p = ANDROID_CAMERA then cam else mic, Suc n)"

definition sample_env :: "PlatformOS \<Rightarrow> js_error + PermissionStatus \<Rightarrow> js_error + PermissionStatus \<Rightarrow> nat env" where
  "sample_env platform cam mic =
     \<lparr>Platform_OS = platform, check = sample_os cam mic, request = sample_os cam mic,
      JSON_parse = sample_parse\<rparr>"

section \<open>Auxiliary facts\<close>

lemma effects_since_append:
  "trace w' = trace w @ evs \<Longrightarrow> effects_since w w' = evs"
  by (simp add: effects_since_def)

lemmas utils_defs = checkPermission_def requestPermission_def call_check_def call_request_def
  emit_def Let_def

lemmas sample_defs = sample_env_def sample_os_def getPermissionConstant_def

section \<open>The permission result\<close>

text \<open>
  Claim C1. For each capability, a result that \<^verbatim>\<open>checkPermission\<close> or \<^verbatim>\<open>requestPermission\<close>
  returns has its field \<^verbatim>\<open>granted\<close> true exactly when its field \<^verbatim>\<open>status\<close> is
  \<^verbatim>\<open>RESULTS.GRANTED\<close>.
\<close>

theorem permission_result_granted_iff_status:
  "fst (checkPermission E c w) = Inr r \<or> fst (requestPermission E c w) = Inr r
   \<Longrightarrow> granted r = (status r = GRANTED)"
  by (auto simp: utils_defs split: prod.splits sum.splits)

theorem permission_result_granted_iff_status_witness:
  "fst (checkPermission (sample_env Android (Inr DENIED) (Inr GRANTED)) Camera (mount (0::nat)))
     = Inr \<lparr>granted = False, status = DENIED\<rparr>
   \<and> granted \<lparr>granted = False, status = DENIED\<rparr>
     = (status \<lparr>granted = False, status = DENIED\<rparr> = GRANTED)"
proof -
  have h: "fst (checkPermission (sample_env Android (Inr DENIED) (Inr GRANTED)) Camera (mount (0::nat)))
     = Inr \<lparr>granted = False, status = DENIED\<rparr>"
    by (simp add: utils_defs sample_defs)
  from permission_result_granted_iff_status [OF disjI1, OF h] h show ?thesis by simp
qed

lemmas screen_defs = WebViewScreen_requestPermission_def setPermissionsGranted_def
  call_request_def emit_def Let_def

lemmas handler_defs = handlePermissionRequest_def handlePermissionRequest_try_def

text \<open>The two single requests, by the answer of the operating system.\<close>

lemma requestPermission_cases:
  "requestPermission E c w =
     (case request E (getPermissionConstant (Platform_OS E) c) (os w) of
        (Inr st, s) \<Rightarrow>
          (Inr \<lparr>granted = (st = GRANTED), status = st\<rparr>,
           w\<lparr>os := s, trace := trace w @ [OsRequest (getPermissionConstant (Platform_OS E) c)]\<rparr>)
      | (Inl e, s) \<Rightarrow>
          (Inl e,
           w\<lparr>os := s, trace := trace w @ [OsRequest (getPermissionConstant (Platform_OS E) c)]\<rparr>))"
  by (simp add: utils_defs split: prod.splits sum.splits)

lemma WebViewScreen_requestPermission_cases:
  "WebViewScreen_requestPermission E c w =
     (case request E (getPermissionConstant (Platform_OS E) c) (os w) of
        (Inr st, s) \<Rightarrow>
          (Inr (st = GRANTED),
           w\<lparr>os := s, trace := trace w @ [OsRequest (getPermissionConstant (Platform_OS E) c)],
             permissionsGranted := (permissionsGranted w)(type_string c \<mapsto> (st = GRANTED))\<rparr>)
      | (Inl e, s) \<Rightarrow>
          (Inr False,
           w\<lparr>os := s, trace := trace w @ [OsRequest (getPermissionConstant (Platform_OS E) c),
                ConsoleError (''Error requesting '' @ type_string c @ '' permission:'') e]\<rparr>))"
  by (simp add: screen_defs getPermissionConstant_def split: prod.splits sum.splits)

lemma WebViewScreen_requestPermission_returns:
  "\<exists>b. fst (WebViewScreen_requestPermission E c w) = Inr b"
  by (auto simp: WebViewScreen_requestPermission_cases split: prod.splits sum.splits)

lemma WebViewScreen_requestPermission_trace:
  "\<exists>log. trace (snd (WebViewScreen_requestPermission E c w))
       = trace w @ OsRequest (getPermissionConstant (Platform_OS E) c) # log
     \<and> os_requests log = [] \<and> alert_buttons log = []"
  by (simp add: WebViewScreen_requestPermission_cases split: prod.splits sum.splits)

lemma os_requests_append: "os_requests (xs @ ys) = os_requests xs @ os_requests ys"
  by (induction xs rule: os_requests.induct) simp_all

lemma alert_buttons_append: "alert_buttons (xs @ ys) = alert_buttons xs @ alert_buttons ys"
  by (induction xs rule: alert_buttons.induct) simp_all

lemma os_requests_alert: "os_requests [permissions_required_alert] = []"
  by (simp add: permissions_required_alert_def)

lemma alert_buttons_alert:
  "alert_buttons [permissions_required_alert]
     = [[\<lparr>button_text = ''OK'', button_style = None, onPress = None\<rparr>]]"
  by (simp add: permissions_required_alert_def)

text \<open>The screen's request for both: the two single requests never throw.\<close>

lemma WebViewScreen_requestAllPermissions_cases:
  "WebViewScreen_requestAllPermissions E w =
     (let (r1, w1) = WebViewScreen_requestPermission E Camera w;
          (r2, w2) = WebViewScreen_requestPermission E Microphone w1;
          ok = (r1 = Inr True \<and> r2 = Inr True)
      in (Inr ok, if ok then w2 else emit permissions_required_alert w2))"
  using WebViewScreen_requestPermission_returns [of E Camera w]
    WebViewScreen_requestPermission_returns [of E Microphone "snd (WebViewScreen_requestPermission E Camera w)"]
  by (auto simp: WebViewScreen_requestAllPermissions_def Let_def split: prod.splits sum.splits)

lemma WebViewScreen_requestAllPermissions_trace:
  "\<exists>log. trace (snd (WebViewScreen_requestAllPermissions E w)) = trace w @ log
     \<and> os_requests log = [getPermissionConstant (Platform_OS E) Camera,
                           getPermissionConstant (Platform_OS E) Microphone]
     \<and> alert_buttons log =
         (if fst (WebViewScreen_requestAllPermissions E w) = Inr True then []
          else [[\<lparr>button_text = ''OK'', button_style = None, onPress = None\<rparr>]])"
proof -
  let ?w1 = "snd (WebViewScreen_requestPermission E Camera w)"
  obtain l1 where l1: "trace ?w1 = trace w @ OsRequest (getPermissionConstant (Platform_OS E) Camera) # l1"
     "os_requests l1 = []" "alert_buttons l1 = []"
    using WebViewScreen_requestPermission_trace by blast
  obtain l2 where l2: "trace (snd (WebViewScreen_requestPermission E Microphone ?w1))
       = trace ?w1 @ OsRequest (getPermissionConstant (Platform_OS E) Microphone) # l2"
     "os_requests l2 = []" "alert_buttons l2 = []"
    using WebViewScreen_requestPermission_trace by blast
  show ?thesis
    using l1 l2
    by (auto simp: WebViewScreen_requestAllPermissions_cases Let_def emit_def os_requests_append
          alert_buttons_append os_requests_alert alert_buttons_alert split: prod.splits)
qed

lemma promise_all2_Inr:
  "promise_all2 first_wins a b = Inr xy \<longleftrightarrow> a = Inr (fst xy) \<and> b = Inr (snd xy)"
  by (cases a; cases b; cases xy) (auto simp: promise_all2_def)

section \<open>Failures of the operating system call\<close>

text \<open>
  Claim C2, as stated, fails for \<^verbatim>\<open>requestPermission\<close> of the utility module: when the call
  of \<^verbatim>\<open>request\<close> rejects, the function rejects with the same error.
\<close>

theorem requestPermission_propagates_failure:
  "fst (requestPermission (sample_env Android (Inl (NativeError ''boom'')) (Inr GRANTED))
          Camera (mount (0::nat)))
     = Inl (NativeError ''boom'')"
  by (simp add: requestPermission_cases sample_defs)

text \<open>
  Claim C2, amended. \<^verbatim>\<open>requestPermission\<close> of the screen never throws, for any environment,
  capability and world. When the call of \<^verbatim>\<open>request\<close> throws, it returns \<^verbatim>\<open>false\<close>, leaves
  \<^verbatim>\<open>permissionsGranted\<close> as it was and logs the error once with \<^verbatim>\<open>console.error\<close>;
  \<^verbatim>\<open>requestPermission\<close> of the utility module then throws the same error to its caller and
  logs nothing.
\<close>

theorem WebViewScreen_requestPermission_catches_failure:
  "(\<exists>b. fst (WebViewScreen_requestPermission E c w) = Inr b)
   \<and> (fst (request E (getPermissionConstant (Platform_OS E) c) (os w)) = Inl e \<longrightarrow>
        fst (WebViewScreen_requestPermission E c w) = Inr False
        \<and> permissionsGranted (snd (WebViewScreen_requestPermission E c w)) = permissionsGranted w
        \<and> console_errors (effects_since w (snd (WebViewScreen_requestPermission E c w)))
            = [(''Error requesting '' @ type_string c @ '' permission:'', e)]
        \<and> fst (requestPermission E c w) = Inl e
        \<and> console_errors (effects_since w (snd (requestPermission E c w))) = [])"
proof (cases "request E (getPermissionConstant (Platform_OS E) c) (os w)")
  case (Pair r s)
  then show ?thesis
    by (cases r)
       (auto simp: WebViewScreen_requestPermission_cases requestPermission_cases effects_since_def)
qed

theorem WebViewScreen_requestPermission_catches_failure_witness:
  "fst (request (sample_env Android (Inl (NativeError ''boom'')) (Inr GRANTED))
          (getPermissionConstant
             (Platform_OS (sample_env Android (Inl (NativeError ''boom'')) (Inr GRANTED))) Camera)
          (os (mount (0::nat)))) = Inl (NativeError ''boom'')
   \<and> fst (WebViewScreen_requestPermission
             (sample_env Android (Inl (NativeError ''boom'')) (Inr GRANTED)) Camera (mount (0::nat)))
       = Inr False
   \<and> permissionsGranted (snd (WebViewScreen_requestPermission
             (sample_env Android (Inl (NativeError ''boom'')) (Inr GRANTED)) Camera (mount (0::nat))))
       = permissionsGranted (mount (0::nat))
   \<and> console_errors (effects_since (mount (0::nat)) (snd (WebViewScreen_requestPermission
             (sample_env Android (Inl (NativeError ''boom'')) (Inr GRANTED)) Camera (mount (0::nat)))))
       = [(''Error requesting '' @ type_string Camera @ '' permission:'', NativeError ''boom'')]"
proof -
  have h: "fst (request (sample_env Android (Inl (NativeError ''boom'')) (Inr GRANTED))
          (getPermissionConstant
             (Platform_OS (sample_env Android (Inl (NativeError ''boom'')) (Inr GRANTED))) Camera)
          (os (mount (0::nat)))) = Inl (NativeError ''boom'')"
    by (simp add: sample_defs)
  from WebViewScreen_requestPermission_catches_failure
         [of "sample_env Android (Inl (NativeError ''boom'')) (Inr GRANTED)" Camera "mount (0::nat)"
             "NativeError ''boom''", THEN conjunct2, rule_format, OF h] h
  show ?thesis by simp
qed

section \<open>Requesting both capabilities\<close>

text \<open>
  Claim C3. A record that \<^verbatim>\<open>requestAllPermissions\<close> of the utility module returns holds the
  result of the camera request, the result of the microphone request (issued after the camera
  request), and \<^verbatim>\<open>allGranted\<close>, which is true exactly when both results are granted.
\<close>

theorem requestAllPermissions_allGranted:
  "fst (requestAllPermissions E first_wins w) = Inr r \<Longrightarrow>
     allGranted r = (granted (camera r) \<and> granted (microphone r))
     \<and> fst (requestPermission E Camera w) = Inr (camera r)
     \<and> fst (requestPermission E Microphone (snd (requestPermission E Camera w)))
         = Inr (microphone r)"
  by (auto simp: requestAllPermissions_def promise_all2_Inr Let_def split: prod.splits sum.splits)

theorem requestAllPermissions_allGranted_witness:
  "fst (requestAllPermissions (sample_env Ios (Inr BLOCKED) (Inr GRANTED)) True (mount (0::nat)))
     = Inr \<lparr>camera = \<lparr>granted = False, status = BLOCKED\<rparr>,
            microphone = \<lparr>granted = True, status = GRANTED\<rparr>, allGranted = False\<rparr>
   \<and> allGranted \<lparr>camera = \<lparr>granted = False, status = BLOCKED\<rparr>,
            microphone = \<lparr>granted = True, status = GRANTED\<rparr>, allGranted = False\<rparr>
     = (granted \<lparr>granted = False, status = BLOCKED\<rparr> \<and> granted \<lparr>granted = True, status = GRANTED\<rparr>)"
proof -
  have h: "fst (requestAllPermissions (sample_env Ios (Inr BLOCKED) (Inr GRANTED)) True (mount (0::nat)))
     = Inr \<lparr>camera = \<lparr>granted = False, status = BLOCKED\<rparr>,
            microphone = \<lparr>granted = True, status = GRANTED\<rparr>, allGranted = False\<rparr>"
    by (simp add: requestAllPermissions_def promise_all2_def requestPermission_cases sample_defs
          mount_def)
  from requestAllPermissions_allGranted [OF h] h show ?thesis by simp
qed

text \<open>
  Claim C10. From the same environment and world, hence with the same answers of the operating
  system to the camera request and to the microphone request, the boolean that the screen's
  sequential \<^verbatim>\<open>requestAllPermissions\<close> returns is the \<^verbatim>\<open>allGranted\<close> of the record that the
  utility module's \<^verbatim>\<open>requestAllPermissions\<close> returns. Where the utility module returns no
  record, because a call of \<^verbatim>\<open>request\<close> threw, the screen returns \<^verbatim>\<open>false\<close>.
\<close>

theorem requestAll_implementations_agree:
  "(fst (requestAllPermissions E first_wins w) = Inr r \<longrightarrow>
      fst (WebViewScreen_requestAllPermissions E w) = Inr (allGranted r))
   \<and> (fst (requestAllPermissions E first_wins w) = Inl e \<longrightarrow>
      fst (WebViewScreen_requestAllPermissions E w) = Inr False)"
proof (cases "request E (getPermissionConstant (Platform_OS E) Camera) (os w)")
  case cam: (Pair r1 s1)
  show ?thesis
  proof (cases "request E (getPermissionConstant (Platform_OS E) Microphone) s1")
    case mic: (Pair r2 s2)
    show ?thesis
      using cam mic
      by (cases r1; cases r2)
         (auto simp: requestAllPermissions_def WebViewScreen_requestAllPermissions_cases
            requestPermission_cases WebViewScreen_requestPermission_cases promise_all2_def Let_def)
  qed
qed

theorem requestAll_implementations_agree_witness:
  "fst (requestAllPermissions (sample_env Android (Inr GRANTED) (Inr GRANTED)) False (mount (0::nat)))
     = Inr \<lparr>camera = \<lparr>granted = True, status = GRANTED\<rparr>,
            microphone = \<lparr>granted = True, status = GRANTED\<rparr>, allGranted = True\<rparr>
   \<and> fst (WebViewScreen_requestAllPermissions (sample_env Android (Inr GRANTED) (Inr GRANTED))
            (mount (0::nat)))
     = Inr True
   \<and> fst (requestAllPermissions (sample_env Android (Inr GRANTED) (Inl (NativeError ''boom'')))
            False (mount (0::nat)))
     = Inl (NativeError ''boom'')
   \<and> fst (WebViewScreen_requestAllPermissions
            (sample_env Android (Inr GRANTED) (Inl (NativeError ''boom''))) (mount (0::nat)))
     = Inr False"
proof -
  have h: "fst (requestAllPermissions (sample_env Android (Inr GRANTED) (Inr GRANTED)) False
                  (mount (0::nat)))
     = Inr \<lparr>camera = \<lparr>granted = True, status = GRANTED\<rparr>,
            microphone = \<lparr>granted = True, status = GRANTED\<rparr>, allGranted = True\<rparr>"
    by (simp add: requestAllPermissions_def promise_all2_def requestPermission_cases sample_defs
          mount_def)
  have k: "fst (requestAllPermissions (sample_env Android (Inr GRANTED) (Inl (NativeError ''boom'')))
                  False (mount (0::nat)))
     = Inl (NativeError ''boom'')"
    by (simp add: requestAllPermissions_def promise_all2_def requestPermission_cases sample_defs
          mount_def)
  from requestAll_implementations_agree [THEN conjunct1, rule_format, OF h]
    requestAll_implementations_agree [THEN conjunct2, rule_format, OF k] h k
  show ?thesis by simp
qed

section \<open>Inbound messages\<close>

lemma snd_discard: "snd (discard rw) = snd rw"
  by (simp add: discard_def split: prod.splits sum.splits)

lemma snd_handlePermissionRequest:
  "snd (handlePermissionRequest E raw w) = snd (handlePermissionRequest_try E raw w)"
  by (simp add: handlePermissionRequest_def split: prod.splits sum.splits)

lemma handlePermissionRequest_returns:
  "fst (handlePermissionRequest E raw w) = Inr ()"
  by (simp add: handlePermissionRequest_def split: sum.splits prod.splits)

text \<open>
  Claim C4. A message that parses to an object with \<^verbatim>\<open>type\<close> \<^verbatim>\<open>"PERMISSION_REQUEST"\<close> and
  \<^verbatim>\<open>permission\<close> \<^verbatim>\<open>"all"\<close> makes the handler ask the operating system exactly twice: once for
  the camera permission and once for the microphone permission, in this order.
\<close>

theorem permission_request_all_asks_each_once:
  assumes "JSON_parse E raw = Inr data"
    and "js_get data ''type'' = Inr (JString ''PERMISSION_REQUEST'')"
    and "js_get data ''permission'' = Inr (JString ''all'')"
  shows "os_requests (effects_since w (snd (handlePermissionRequest E raw w)))
           = [getPermissionConstant (Platform_OS E) Camera,
              getPermissionConstant (Platform_OS E) Microphone]
         \<and> count_list (os_requests (effects_since w (snd (handlePermissionRequest E raw w))))
             (getPermissionConstant (Platform_OS E) Camera) = 1
         \<and> count_list (os_requests (effects_since w (snd (handlePermissionRequest E raw w))))
             (getPermissionConstant (Platform_OS E) Microphone) = 1"
proof -
  have "snd (handlePermissionRequest E raw w) = snd (WebViewScreen_requestAllPermissions E w)"
    using assms by (simp add: handler_defs discard_def split: prod.splits sum.splits)
  moreover obtain log where "trace (snd (WebViewScreen_requestAllPermissions E w)) = trace w @ log"
     "os_requests log = [getPermissionConstant (Platform_OS E) Camera,
                         getPermissionConstant (Platform_OS E) Microphone]"
    using WebViewScreen_requestAllPermissions_trace by blast
  ultimately show ?thesis
    by (simp add: effects_since_append getPermissionConstant_def)
qed

theorem permission_request_all_asks_each_once_witness:
  "os_requests (effects_since (mount (0::nat))
      (snd (handlePermissionRequest (sample_env Ios (Inr DENIED) (Inr GRANTED))
              (stringify_request ''all'') (mount (0::nat)))))
     = [IOS_CAMERA, IOS_MICROPHONE]"
proof -
  have p: "JSON_parse (sample_env Ios (Inr DENIED) (Inr GRANTED)) (stringify_request ''all'')
             = Inr (JObject [(''type'', JString ''PERMISSION_REQUEST''),
                             (''permission'', JString ''all'')])"
    by (simp add: sample_env_def sample_parse_def stringify_request_def)
  have t: "js_get (JObject [(''type'', JString ''PERMISSION_REQUEST''),
                            (''permission'', JString ''all'')]) ''type''
             = Inr (JString ''PERMISSION_REQUEST'')"
    by simp
  have q: "js_get (JObject [(''type'', JString ''PERMISSION_REQUEST''),
                            (''permission'', JString ''all'')]) ''permission''
             = Inr (JString ''all'')"
    by simp
  from permission_request_all_asks_each_once [OF p t q, of "mount (0::nat)"]
  show ?thesis by (simp add: sample_defs)
qed

text \<open>
  Claim C5. A message that does not parse, or that parses to a value whose \<^verbatim>\<open>type\<close> is not the
  string \<^verbatim>\<open>"PERMISSION_REQUEST"\<close> (missing included), or whose \<^verbatim>\<open>permission\<close> is none of the
  strings \<^verbatim>\<open>"camera"\<close>, \<^verbatim>\<open>"microphone"\<close>, \<^verbatim>\<open>"all"\<close> (missing included), is discarded: the handler
  returns normally and the world is the one before, so the store is unchanged, the operating
  system was not asked, nothing was logged and no modal was shown.
\<close>

theorem nonconforming_message_discarded:
  assumes "(\<exists>e. JSON_parse E raw = Inl e)
     \<or> (\<exists>data. JSON_parse E raw = Inr data
           \<and> (js_get data ''type'' \<noteq> Inr (JString ''PERMISSION_REQUEST'')
              \<or> js_get data ''permission'' \<notin>
                   {Inr (JString ''camera''), Inr (JString ''microphone''), Inr (JString ''all'')}))"
  shows "handlePermissionRequest E raw w = (Inr (), w)"
proof (cases "JSON_parse E raw")
  case (Inl e)
  then show ?thesis by (simp add: handler_defs)
next
  case parsed: (Inr data)
  with assms have bad: "js_get data ''type'' \<noteq> Inr (JString ''PERMISSION_REQUEST'')
      \<or> js_get data ''permission'' \<notin>
           {Inr (JString ''camera''), Inr (JString ''microphone''), Inr (JString ''all'')}"
    by simp
  show ?thesis
  proof (cases "js_get data ''type''")
    case (Inl e)
    with parsed show ?thesis by (simp add: handler_defs)
  next
    case ty: (Inr t)
    show ?thesis
    proof (cases "t = JString ''PERMISSION_REQUEST''")
      case False
      with parsed ty show ?thesis by (simp add: handler_defs)
    next
      case True
      with bad ty have perm: "js_get data ''permission'' \<noteq> Inr (JString ''camera'')"
        "js_get data ''permission'' \<noteq> Inr (JString ''microphone'')"
        "js_get data ''permission'' \<noteq> Inr (JString ''all'')"
        by simp_all
      show ?thesis
      proof (cases "js_get data ''permission''")
        case (Inl e)
        with parsed ty True show ?thesis by (simp add: handler_defs)
      next
        case (Inr p)
        with perm have "p \<noteq> JString ''camera''" "p \<noteq> JString ''microphone''"
          "p \<noteq> JString ''all''"
          by simp_all
        with parsed ty True Inr show ?thesis by (simp add: handler_defs)
      qed
    qed
  qed
qed

theorem nonconforming_message_discarded_witness:
  "handlePermissionRequest (sample_env Android (Inr GRANTED) (Inr GRANTED)) ''not json'' (mount (0::nat))
     = (Inr (), mount 0)
   \<and> handlePermissionRequest (sample_env Android (Inr GRANTED) (Inr GRANTED)) ''null'' (mount (0::nat))
     = (Inr (), mount 0)
   \<and> handlePermissionRequest (sample_env Android (Inr GRANTED) (Inr GRANTED)) ''{}'' (mount (0::nat))
     = (Inr (), mount 0)"
proof -
  have a: "\<exists>e. JSON_parse (sample_env Android (Inr GRANTED) (Inr GRANTED)) ''not json'' = Inl e"
    by (simp add: sample_env_def sample_parse_def stringify_request_def)
  have b: "\<exists>data. JSON_parse (sample_env Android (Inr GRANTED) (Inr GRANTED)) ''null'' = Inr data
           \<and> (js_get data ''type'' \<noteq> Inr (JString ''PERMISSION_REQUEST'')
              \<or> js_get data ''permission'' \<notin>
                   {Inr (JString ''camera''), Inr (JString ''microphone''), Inr (JString ''all'')})"
    by (simp add: sample_env_def sample_parse_def stringify_request_def)
  have c: "\<exists>data. JSON_parse (sample_env Android (Inr GRANTED) (Inr GRANTED)) ''{}'' = Inr data
           \<and> (js_get data ''type'' \<noteq> Inr (JString ''PERMISSION_REQUEST'')
              \<or> js_get data ''permission'' \<notin>
                   {Inr (JString ''camera''), Inr (JString ''microphone''), Inr (JString ''all'')})"
    by (simp add: sample_env_def sample_parse_def stringify_request_def)
  from nonconforming_message_discarded [OF disjI1, OF a]
    nonconforming_message_discarded [OF disjI2, OF b]
    nonconforming_message_discarded [OF disjI2, OF c]
  show ?thesis by simp
qed

section \<open>Modals\<close>

lemma alert_buttons_denied:
  "alert_buttons [permission_denied_alert n]
     = [[\<lparr>button_text = ''Cancel'', button_style = Some ''cancel'', onPress = None\<rparr>,
         \<lparr>button_text = ''Open Settings'', button_style = None, onPress = Some OpenSettings\<rparr>]]"
  by (simp add: permission_denied_alert_def)

lemma handlePermissionResult_alerts:
  "alert_buttons (effects_since w (snd (handlePermissionResult E c w)))
     = (if fst (request E (getPermissionConstant (Platform_OS E) c) (os w)) = Inr BLOCKED
        then [[\<lparr>button_text = ''Cancel'', button_style = Some ''cancel'', onPress = None\<rparr>,
               \<lparr>button_text = ''Open Settings'', button_style = None,
                onPress = Some OpenSettings\<rparr>]]
        else [])"
proof (cases "request E (getPermissionConstant (Platform_OS E) c) (os w)")
  case (Pair r s)
  then show ?thesis
    by (cases r)
       (simp_all add: handlePermissionResult_def requestPermission_cases
          showPermissionDeniedAlert_def emit_def effects_since_def alert_buttons_denied)
qed

lemma requestPermission_alerts:
  "alert_buttons (effects_since w (snd (requestPermission E c w))) = []"
  by (simp add: requestPermission_cases effects_since_def split: prod.splits sum.splits)

lemma requestPermission_trace:
  "trace (snd (requestPermission E c w))
     = trace w @ [OsRequest (getPermissionConstant (Platform_OS E) c)]"
  by (simp add: requestPermission_cases split: prod.splits sum.splits)

lemma requestAllPermissions_alerts:
  "alert_buttons (effects_since w (snd (requestAllPermissions E first_wins w))) = []"
proof -
  have "snd (requestAllPermissions E first_wins w)
          = snd (requestPermission E Microphone (snd (requestPermission E Camera w)))"
    by (simp add: requestAllPermissions_def Let_def split: prod.splits sum.splits)
  then have "trace (snd (requestAllPermissions E first_wins w))
          = trace w @ [OsRequest (getPermissionConstant (Platform_OS E) Camera),
                       OsRequest (getPermissionConstant (Platform_OS E) Microphone)]"
    by (simp add: requestPermission_trace)
  then show ?thesis
    by (simp add: effects_since_append)
qed

lemma WebViewScreen_requestPermission_alerts:
  "alert_buttons (effects_since w (snd (WebViewScreen_requestPermission E c w))) = []"
proof -
  obtain log where "trace (snd (WebViewScreen_requestPermission E c w))
       = trace w @ OsRequest (getPermissionConstant (Platform_OS E) c) # log"
     "alert_buttons log = []"
    using WebViewScreen_requestPermission_trace by blast
  then show ?thesis
    by (simp add: effects_since_append)
qed

lemma WebViewScreen_requestAllPermissions_alerts:
  "alert_buttons (effects_since w (snd (WebViewScreen_requestAllPermissions E w)))
     = (if fst (WebViewScreen_requestAllPermissions E w) = Inr True then []
        else [[\<lparr>button_text = ''OK'', button_style = None, onPress = None\<rparr>]])"
proof -
  obtain log where "trace (snd (WebViewScreen_requestAllPermissions E w)) = trace w @ log"
    "alert_buttons log =
         (if fst (WebViewScreen_requestAllPermissions E w) = Inr True then []
          else [[\<lparr>button_text = ''OK'', button_style = None, onPress = None\<rparr>]])"
    using WebViewScreen_requestAllPermissions_trace by blast
  then show ?thesis
    by (simp add: effects_since_append)
qed

text \<open>
  Claim C7, as stated, fails for the modal of an incomplete request for both capabilities: the
  screen's \<^verbatim>\<open>requestAllPermissions\<close>, with the camera denied, shows one modal whose only
  button is OK, with no handler; it does not offer to open the settings.
\<close>

theorem incomplete_grant_modal_has_only_ok:
  "alert_buttons (effects_since (mount (0::nat))
      (snd (WebViewScreen_requestAllPermissions (sample_env Android (Inr DENIED) (Inr GRANTED))
              (mount (0::nat)))))
     = [[\<lparr>button_text = ''OK'', button_style = None, onPress = None\<rparr>]]"
proof -
  have "fst (WebViewScreen_requestAllPermissions (sample_env Android (Inr DENIED) (Inr GRANTED))
               (mount (0::nat))) = Inr False"
    by (simp add: WebViewScreen_requestAllPermissions_cases WebViewScreen_requestPermission_cases
          sample_defs)
  then show ?thesis
    by (simp add: WebViewScreen_requestAllPermissions_alerts)
qed

text \<open>
  Claim C7, amended. There are two modals. \<^verbatim>\<open>handlePermissionResult\<close> of the utility module
  shows, exactly when the operating system answers \<^verbatim>\<open>RESULTS.BLOCKED\<close>, one modal with the two
  buttons Cancel and Open Settings. The screen's \<^verbatim>\<open>requestAllPermissions\<close> shows, exactly when
  it does not return \<^verbatim>\<open>true\<close>, one modal with the single button OK. The single requests (of the
  screen and of the utility module) and the utility module's \<^verbatim>\<open>requestAllPermissions\<close> show no
  modal, whatever the operating system answers: so none is shown for a plain denial of a
  single capability.
\<close>

theorem modals_shown:
  "alert_buttons (effects_since w (snd (handlePermissionResult E c w)))
     = (if fst (request E (getPermissionConstant (Platform_OS E) c) (os w)) = Inr BLOCKED
        then [[\<lparr>button_text = ''Cancel'', button_style = Some ''cancel'', onPress = None\<rparr>,
               \<lparr>button_text = ''Open Settings'', button_style = None,
                onPress = Some OpenSettings\<rparr>]]
        else [])
   \<and> alert_buttons (effects_since w (snd (WebViewScreen_requestAllPermissions E w)))
     = (if fst (WebViewScreen_requestAllPermissions E w) = Inr True then []
        else [[\<lparr>button_text = ''OK'', button_style = None, onPress = None\<rparr>]])
   \<and> alert_buttons (effects_since w (snd (WebViewScreen_requestPermission E c w))) = []
   \<and> alert_buttons (effects_since w (snd (requestPermission E c w))) = []
   \<and> alert_buttons (effects_since w (snd (requestAllPermissions E first_wins w))) = []"
  by (simp only: handlePermissionResult_alerts WebViewScreen_requestAllPermissions_alerts
        WebViewScreen_requestPermission_alerts requestPermission_alerts
        requestAllPermissions_alerts simp_thms)

theorem modals_shown_witness:
  "alert_buttons (effects_since (mount (0::nat))
      (snd (handlePermissionResult (sample_env Ios (Inr BLOCKED) (Inr GRANTED)) Camera
              (mount (0::nat)))))
     = [[\<lparr>button_text = ''Cancel'', button_style = Some ''cancel'', onPress = None\<rparr>,
         \<lparr>button_text = ''Open Settings'', button_style = None, onPress = Some OpenSettings\<rparr>]]
   \<and> alert_buttons (effects_since (mount (0::nat))
      (snd (handlePermissionResult (sample_env Ios (Inr DENIED) (Inr GRANTED)) Camera
              (mount (0::nat)))))
     = []"
  using modals_shown [of "mount (0::nat)" "sample_env Ios (Inr BLOCKED) (Inr GRANTED)" Camera]
    modals_shown [of "mount (0::nat)" "sample_env Ios (Inr DENIED) (Inr GRANTED)" Camera]
  by (simp add: sample_defs)

section \<open>The screen with handlers in flight\<close>

lemma type_string_key: "type_string c = ''camera'' \<or> type_string c = ''microphone''"
  by (cases c) simp_all

text \<open>The two halves of the screen's \<^verbatim>\<open>requestPermission\<close> make up the whole.\<close>

lemma requestPermission_call_eq:
  "requestPermission_call E c k w =
     (Awaiting c (fst (request E (getPermissionConstant (Platform_OS E) c) (os w))) k,
      w\<lparr>os := snd (request E (getPermissionConstant (Platform_OS E) c) (os w)),
        trace := trace w @ [OsRequest (getPermissionConstant (Platform_OS E) c)]\<rparr>)"
  by (simp add: requestPermission_call_def call_request_def emit_def getPermissionConstant_def
        split: prod.splits)

lemma requestPermission_resume_eq:
  "requestPermission_resume c r w =
     (case r of
        Inr st \<Rightarrow> (st = GRANTED,
                   w\<lparr>permissionsGranted := (permissionsGranted w)(type_string c \<mapsto> (st = GRANTED))\<rparr>)
      | Inl e \<Rightarrow> (False,
                  w\<lparr>trace := trace w
                       @ [ConsoleError (''Error requesting '' @ type_string c @ '' permission:'') e]\<rparr>))"
  by (simp add: requestPermission_resume_def setPermissionsGranted_def emit_def Let_def
        split: sum.splits)

lemma WebViewScreen_requestPermission_halves:
  "WebViewScreen_requestPermission E c w =
     (case requestPermission_call E c k w of
        (Awaiting c' r k', w1) \<Rightarrow>
          (case requestPermission_resume c' r w1 of (b, w2) \<Rightarrow> (Inr b, w2))
      | (Resuming b k', w1) \<Rightarrow> (Inr b, w1)
      | (Completed, w1) \<Rightarrow> (Inr False, w1))"
  by (cases "request E (getPermissionConstant (Platform_OS E) c) (os w)")
     (simp add: requestPermission_call_eq requestPermission_resume_eq
        WebViewScreen_requestPermission_cases split: sum.splits)

text \<open>What the start of a message handler can be.\<close>

lemma handlePermissionRequest_start_cases:
  "handlePermissionRequest_start E raw w = (None, w)
   \<or> (\<exists>c k. handlePermissionRequest_start E raw w
              = map_prod Some id (requestPermission_call E c k w))"
proof (cases "JSON_parse E raw")
  case (Inl e)
  then show ?thesis by (simp add: handlePermissionRequest_start_def)
next
  case parsed: (Inr data)
  show ?thesis
  proof (cases "js_get data ''type''")
    case (Inl e)
    with parsed show ?thesis by (simp add: handlePermissionRequest_start_def)
  next
    case ty: (Inr t)
    show ?thesis
    proof (cases "js_get data ''permission''")
      case (Inl e)
      with parsed ty show ?thesis by (simp add: handlePermissionRequest_start_def)
    next
      case perm: (Inr p)
      have "handlePermissionRequest_start E raw w = (None, w)
          \<or> handlePermissionRequest_start E raw w
               = map_prod Some id (requestPermission_call E Camera FromHandler w)
          \<or> handlePermissionRequest_start E raw w
               = map_prod Some id (requestPermission_call E Microphone FromHandler w)
          \<or> handlePermissionRequest_start E raw w
               = map_prod Some id (requestPermission_call E Camera FromAllCamera w)"
        using parsed ty perm by (simp add: handlePermissionRequest_start_def)
      then show ?thesis by blast
    qed
  qed
qed

text \<open>
  What every occurrence keeps: the two keys of the store, the reference to the \<^verbatim>\<open>WebView\<close>,
  and the calls of the waiting handlers in the trace.
\<close>

lemma issued_append: "issued E tr t \<Longrightarrow> issued E (tr @ evs) t"
  by (cases t) simp_all

lemma list_all_issued_append:
  "list_all (issued E tr) ts \<Longrightarrow> list_all (issued E (tr @ evs)) ts"
  by (simp add: list_all_iff issued_append)

lemma list_all_update:
  "list_all P ts \<Longrightarrow> P t \<Longrightarrow> list_all P (ts[i := t])"
  using set_update_subset_insert [of ts i t] by (auto simp: list_all_iff)

lemma steady_start:
  assumes "steady E S"
  shows "steady E (step E S (Event (Message raw)))"
proof -
  from handlePermissionRequest_start_cases [of E raw "now S"]
  show ?thesis
  proof (elim disjE exE)
    assume "handlePermissionRequest_start E raw (now S) = (None, now S)"
    with assms show ?thesis by (simp add: steady_def)
  next
    fix c k
    assume "handlePermissionRequest_start E raw (now S)
              = map_prod Some id (requestPermission_call E c k (now S))"
    with assms show ?thesis
      by (simp add: steady_def requestPermission_call_eq list_all_issued_append)
  qed
qed

lemma steady_settle:
  assumes "steady E S"
  shows "steady E (step E S (Settle i))"
proof (cases "i < length (pending S)")
  case False
  with assms show ?thesis by simp
next
  case i: True
  show ?thesis
  proof (cases "pending S ! i")
    case (Awaiting c r k)
    show ?thesis
    proof (cases r)
      case (Inl e)
      with assms i Awaiting show ?thesis
        by (simp add: steady_def requestPermission_resume_eq list_all_update
              list_all_issued_append)
    next
      case (Inr st)
      with assms i Awaiting type_string_key [of c] show ?thesis
        by (auto simp: steady_def requestPermission_resume_eq list_all_update)
    qed
  qed (use assms i in simp_all)
qed

lemma steady_continue:
  assumes "steady E S"
  shows "steady E (step E S (Continue i))"
proof (cases "i < length (pending S)")
  case False
  with assms show ?thesis by simp
next
  case i: True
  show ?thesis
  proof (cases "pending S ! i")
    case (Resuming b k)
    with assms i show ?thesis
      by (cases k)
         (simp_all add: steady_def requestPermission_call_eq emit_def list_all_update
            list_all_issued_append)
  qed (use assms i in simp_all)
qed

lemma steady_step:
  assumes "steady E S"
  shows "steady E (step E S occ)"
proof (cases occ)
  case (Event ev)
  show ?thesis
  proof (cases ev)
    case (Message raw)
    with Event assms show ?thesis by (simp only: steady_start)
  qed (use assms Event in \<open>simp_all add: steady_def onBackPress_def emit_def setIsLoading_def
         setCanGoBack_def list_all_issued_append\<close>)
next
  case (Settle i)
  with assms show ?thesis by (simp only: steady_settle)
next
  case (Continue i)
  with assms show ?thesis by (simp only: steady_continue)
qed

lemma steady_exec: "steady E S \<Longrightarrow> steady E (exec E occs S)"
  unfolding exec_def
  by (induction occs arbitrary: S) (simp_all add: steady_step)

lemma steady_mounted: "steady E (mounted s)"
  by (auto simp: steady_def mounted_def mount_def)

text \<open>
  A message handled with nothing in between (the message, then its handler settled and
  resumed twice over) leaves the world that \<^verbatim>\<open>handlePermissionRequest\<close> run from start
  to end leaves.
\<close>

lemma handler_single_uninterrupted:
  "now (exec E [Settle (length ts), Continue (length ts), Settle (length ts), Continue (length ts)]
          \<lparr>now = snd (requestPermission_call E c FromHandler w),
           pending = ts @ [fst (requestPermission_call E c FromHandler w)]\<rparr>)
     = snd (WebViewScreen_requestPermission E c w)"
  by (cases "request E (getPermissionConstant (Platform_OS E) c) (os w)")
     (simp add: exec_def requestPermission_call_eq requestPermission_resume_eq
        WebViewScreen_requestPermission_cases split: sum.splits)

lemma handler_all_uninterrupted:
  "now (exec E [Settle (length ts), Continue (length ts), Settle (length ts), Continue (length ts)]
          \<lparr>now = snd (requestPermission_call E Camera FromAllCamera w),
           pending = ts @ [fst (requestPermission_call E Camera FromAllCamera w)]\<rparr>)
     = snd (WebViewScreen_requestAllPermissions E w)"
proof (cases "request E (getPermissionConstant (Platform_OS E) Camera) (os w)")
  case cam: (Pair r1 s1)
  show ?thesis
  proof (cases "request E (getPermissionConstant (Platform_OS E) Microphone) s1")
    case mic: (Pair r2 s2)
    show ?thesis
      using cam mic
      by (cases r1; cases r2)
         (simp_all add: exec_def requestPermission_call_eq requestPermission_resume_eq
            WebViewScreen_requestAllPermissions_cases WebViewScreen_requestPermission_cases
            emit_def Let_def)
  qed
qed

lemma message_uninterrupted:
  "now (exec E [Event (Message raw), Settle (length ts), Continue (length ts),
                Settle (length ts), Continue (length ts)] \<lparr>now = w, pending = ts\<rparr>)
     = snd (handlePermissionRequest E raw w)"
proof -
  let ?rest = "[Settle (length ts), Continue (length ts), Settle (length ts), Continue (length ts)]"
  have idle: "now (exec E ?rest \<lparr>now = w, pending = ts\<rparr>) = w"
    by (simp add: exec_def)
  have split: "exec E (Event (Message raw) # ?rest) \<lparr>now = w, pending = ts\<rparr>
      = exec E ?rest (step E \<lparr>now = w, pending = ts\<rparr> (Event (Message raw)))"
    by (simp add: exec_def)
  show ?thesis
  proof (cases "JSON_parse E raw")
    case (Inl e)
    then show ?thesis
      unfolding split using idle
      by (simp add: handler_defs handlePermissionRequest_start_def)
  next
    case parsed: (Inr data)
    show ?thesis
    proof (cases "js_get data ''type''")
      case (Inl e)
      with parsed show ?thesis
        unfolding split using idle
        by (simp add: handler_defs handlePermissionRequest_start_def)
    next
      case ty: (Inr t)
      show ?thesis
      proof (cases "t = JString ''PERMISSION_REQUEST''")
        case False
        with parsed ty show ?thesis
          unfolding split using idle
          by (simp add: handler_defs handlePermissionRequest_start_def)
      next
        case pr: True
        show ?thesis
        proof (cases "js_get data ''permission''")
          case (Inl e)
          with parsed ty pr show ?thesis
            unfolding split using idle
            by (simp add: handler_defs handlePermissionRequest_start_def)
        next
          case perm: (Inr p)
          have whole: "snd (handlePermissionRequest E raw w) =
              (if p = JString ''camera''
               then snd (WebViewScreen_requestPermission E Camera w)
               else if p = JString ''microphone''
               then snd (WebViewScreen_requestPermission E Microphone w)
               else if p = JString ''all''
               then snd (WebViewScreen_requestAllPermissions E w)
               else w)"
            using parsed ty pr perm
            by (simp add: snd_handlePermissionRequest handlePermissionRequest_try_def snd_discard)
          have start: "step E \<lparr>now = w, pending = ts\<rparr> (Event (Message raw)) =
              (if p = JString ''camera''
               then \<lparr>now = snd (requestPermission_call E Camera FromHandler w),
                     pending = ts @ [fst (requestPermission_call E Camera FromHandler w)]\<rparr>
               else if p = JString ''microphone''
               then \<lparr>now = snd (requestPermission_call E Microphone FromHandler w),
                     pending = ts @ [fst (requestPermission_call E Microphone FromHandler w)]\<rparr>
               else if p = JString ''all''
               then \<lparr>now = snd (requestPermission_call E Camera FromAllCamera w),
                     pending = ts @ [fst (requestPermission_call E Camera FromAllCamera w)]\<rparr>
               else \<lparr>now = w, pending = ts\<rparr>)"
            using parsed ty pr perm
            by (simp add: handlePermissionRequest_start_def requestPermission_call_eq)
          show ?thesis
            unfolding split start whole
            using idle handler_single_uninterrupted [of E ts Camera w]
              handler_single_uninterrupted [of E ts Microphone w]
              handler_all_uninterrupted [of E ts w]
            by (simp del: foldl_Cons)
        qed
      qed
    qed
  qed
qed

text \<open>
  Two messages in flight: \<^verbatim>\<open>all\<close>, then \<^verbatim>\<open>camera\<close> while the first waits. The operating system
  is asked for the camera twice before it is asked for the microphone.
\<close>

lemma messages_interleave:
  "os_requests (trace (now (exec (sample_env Android (Inr GRANTED) (Inr GRANTED))
      [Event (Message (stringify_request ''all'')),
       Event (Message (stringify_request ''camera'')),
       Settle 0, Continue 0] (mounted (0::nat)))))
     = [ANDROID_CAMERA, ANDROID_CAMERA, ANDROID_RECORD_AUDIO]"
  by (simp add: exec_def mounted_def mount_def handlePermissionRequest_start_def
        requestPermission_call_eq requestPermission_resume_eq sample_defs sample_parse_def
        stringify_request_def)

section \<open>The back button\<close>

lemma onBackPress_effects:
  "effects_since w (snd (onBackPress w))
     = (if canGoBack w \<and> webViewRef w then [WebViewGoBack] else [OnGoBack])
   \<and> fst (onBackPress w) = True"
  by (simp add: onBackPress_def emit_def effects_since_def)

text \<open>
  Claim C6. At every point of the mounted screen's life, that is after any events, settled
  requests and resumed handlers in any order, a back press does exactly one thing and is
  reported as handled: where the last \<^verbatim>\<open>canGoBack\<close> seen is true, the handler steps the
  content's history back once and does not call \<^verbatim>\<open>onGoBack\<close>, the exit of the viewer; where
  it is false, the handler calls \<^verbatim>\<open>onGoBack\<close> exactly once and does not step back.
\<close>

theorem back_press_steps_back_or_exits:
  assumes "w = now (exec E occs (mounted s))"
  shows "(canGoBack w \<longrightarrow>
            effects_since w (snd (onBackPress w)) = [WebViewGoBack]
            \<and> count_list (effects_since w (snd (onBackPress w))) OnGoBack = 0)
         \<and> (\<not> canGoBack w \<longrightarrow>
            effects_since w (snd (onBackPress w)) = [OnGoBack]
            \<and> count_list (effects_since w (snd (onBackPress w))) OnGoBack = 1)
         \<and> fst (onBackPress w) = True
         \<and> now (step E (exec E occs (mounted s)) (Event HardwareBackPress)) = snd (onBackPress w)"
proof -
  have "steady E (exec E occs (mounted s))"
    by (rule steady_exec [OF steady_mounted])
  with assms have "webViewRef w"
    by (simp add: steady_def)
  with assms show ?thesis
    by (simp add: onBackPress_effects)
qed

theorem back_press_steps_back_or_exits_witness:
  "canGoBack (now (exec (sample_env Android (Inr GRANTED) (Inr GRANTED))
                     [Event (NavigationStateChange True)] (mounted (0::nat))))
   \<and> effects_since
        (now (exec (sample_env Android (Inr GRANTED) (Inr GRANTED))
                [Event (NavigationStateChange True)] (mounted (0::nat))))
        (snd (onBackPress (now (exec (sample_env Android (Inr GRANTED) (Inr GRANTED))
                [Event (NavigationStateChange True)] (mounted (0::nat))))))
       = [WebViewGoBack]
   \<and> \<not> canGoBack (now (exec (sample_env Android (Inr GRANTED) (Inr GRANTED)) []
                       (mounted (0::nat))))
   \<and> effects_since
        (now (exec (sample_env Android (Inr GRANTED) (Inr GRANTED)) [] (mounted (0::nat))))
        (snd (onBackPress (now (exec (sample_env Android (Inr GRANTED) (Inr GRANTED)) []
                (mounted (0::nat))))))
       = [OnGoBack]"
proof -
  have a: "canGoBack (now (exec (sample_env Android (Inr GRANTED) (Inr GRANTED))
                     [Event (NavigationStateChange True)] (mounted (0::nat))))"
    by (simp add: exec_def mounted_def mount_def setCanGoBack_def)
  have b: "\<not> canGoBack (now (exec (sample_env Android (Inr GRANTED) (Inr GRANTED)) []
                       (mounted (0::nat))))"
    by (simp add: exec_def mounted_def mount_def)
  from back_press_steps_back_or_exits
         [where E = "sample_env Android (Inr GRANTED) (Inr GRANTED)"
            and occs = "[Event (NavigationStateChange True)]" and s = "0::nat", OF refl]
    back_press_steps_back_or_exits
         [where E = "sample_env Android (Inr GRANTED) (Inr GRANTED)"
            and occs = "[]" and s = "0::nat", OF refl]
    a b
  show ?thesis by simp
qed

section \<open>The keys of the store\<close>

lemma step_mutation:
  assumes "steady E S"
    and "permissionsGranted (now (step E S occ)) \<noteq> permissionsGranted (now S)"
  shows "\<exists>i c st k. occ = Settle i \<and> i < length (pending S)
           \<and> pending S ! i = Awaiting c (Inr st) k
           \<and> OsRequest (getPermissionConstant (Platform_OS E) c) \<in> set (trace (now S))
           \<and> permissionsGranted (now (step E S occ))
               = (permissionsGranted (now S))(type_string c \<mapsto> (st = GRANTED))"
proof (cases occ)
  case (Event ev)
  show ?thesis
  proof (cases ev)
    case (Message raw)
    from handlePermissionRequest_start_cases [of E raw "now S"]
    have "permissionsGranted (now (step E S (Event (Message raw)))) = permissionsGranted (now S)"
      by (elim disjE exE) (simp_all add: requestPermission_call_eq)
    with assms(2) Event Message show ?thesis by simp
  qed (use assms(2) Event in \<open>auto simp: onBackPress_def emit_def setIsLoading_def
         setCanGoBack_def split: if_splits\<close>)
next
  case (Settle i)
  show ?thesis
  proof (cases "i < length (pending S)")
    case False
    with assms(2) Settle show ?thesis by simp
  next
    case i: True
    show ?thesis
    proof (cases "pending S ! i")
      case (Awaiting c r k)
      from assms(1) i have "issued E (trace (now S)) (pending S ! i)"
        by (simp add: steady_def list_all_length)
      with Awaiting have req: "OsRequest (getPermissionConstant (Platform_OS E) c)
                                 \<in> set (trace (now S))"
        by simp
      show ?thesis
      proof (cases r)
        case (Inl e)
        with assms(2) Settle i Awaiting show ?thesis
          by (simp add: requestPermission_resume_eq)
      next
        case (Inr st)
        with Settle i Awaiting req show ?thesis
          by (simp add: requestPermission_resume_eq)
      qed
    qed (use assms(2) Settle i in simp_all)
  qed
next
  case (Continue i)
  have "permissionsGranted (now (step E S (Continue i))) = permissionsGranted (now S)"
  proof (cases "i < length (pending S)")
    case True
    then show ?thesis
    proof (cases "pending S ! i")
      case (Resuming b k)
      with True show ?thesis
        by (cases k) (simp_all add: requestPermission_call_eq emit_def)
    qed simp_all
  qed simp
  with assms(2) Continue show ?thesis by simp
qed

text \<open>
  Claim C8. The store \<^verbatim>\<open>permissionsGranted\<close> has, at mount, the two keys \<^verbatim>\<open>camera\<close> and
  \<^verbatim>\<open>microphone\<close>, both \<^verbatim>\<open>false\<close>. At every point of the mounted screen's life, that is after
  any events, settled requests and resumed handlers in any order, with any number of message
  handlers in flight, its keys are exactly these two. The store changes only when a request
  settles that a handler had made before (its call is in the trace) and that the operating
  system answered with a status; the change sets the key of that request's capability to
  whether the status is \<^verbatim>\<open>RESULTS.GRANTED\<close>, and leaves the other key as it was.
\<close>

theorem permissionsGranted_keys:
  assumes "R = exec E occs (mounted s)"
  shows "permissionsGranted (now (mounted s)) ''camera'' = Some False
   \<and> permissionsGranted (now (mounted s)) ''microphone'' = Some False
   \<and> dom (permissionsGranted (now R)) = {''camera'', ''microphone''}
   \<and> dom (permissionsGranted (now (step E R occ))) = {''camera'', ''microphone''}
   \<and> (permissionsGranted (now (step E R occ)) \<noteq> permissionsGranted (now R) \<longrightarrow>
        (\<exists>i c st k. occ = Settle i \<and> i < length (pending R)
           \<and> pending R ! i = Awaiting c (Inr st) k
           \<and> OsRequest (getPermissionConstant (Platform_OS E) c) \<in> set (trace (now R))
           \<and> permissionsGranted (now (step E R occ))
               = (permissionsGranted (now R))(type_string c \<mapsto> (st = GRANTED))))"
proof -
  have R: "steady E R"
    unfolding assms by (rule steady_exec [OF steady_mounted])
  then have "steady E (step E R occ)"
    by (rule steady_step)
  with R step_mutation [OF R, of occ] show ?thesis
    by (simp add: steady_def mounted_def mount_def)
qed

theorem permissionsGranted_keys_witness:
  "permissionsGranted
      (now (step (sample_env Android (Inr GRANTED) (Inr DENIED))
              (exec (sample_env Android (Inr GRANTED) (Inr DENIED))
                 [Event (Message (stringify_request ''all'')),
                  Event (Message (stringify_request ''camera''))] (mounted (0::nat)))
              (Settle 1)))
     \<noteq> permissionsGranted
          (now (exec (sample_env Android (Inr GRANTED) (Inr DENIED))
                 [Event (Message (stringify_request ''all'')),
                  Event (Message (stringify_request ''camera''))] (mounted (0::nat))))
   \<and> dom (permissionsGranted
      (now (step (sample_env Android (Inr GRANTED) (Inr DENIED))
              (exec (sample_env Android (Inr GRANTED) (Inr DENIED))
                 [Event (Message (stringify_request ''all'')),
                  Event (Message (stringify_request ''camera''))] (mounted (0::nat)))
              (Settle 1))))
       = {''camera'', ''microphone''}
   \<and> pending (exec (sample_env Android (Inr GRANTED) (Inr DENIED))
                 [Event (Message (stringify_request ''all'')),
                  Event (Message (stringify_request ''camera''))] (mounted (0::nat))) ! 1
       = Awaiting Camera (Inr GRANTED) FromHandler
   \<and> os_requests (trace (now (exec (sample_env Android (Inr GRANTED) (Inr DENIED))
                 [Event (Message (stringify_request ''all'')),
                  Event (Message (stringify_request ''camera''))] (mounted (0::nat)))))
       = [ANDROID_CAMERA, ANDROID_CAMERA]"
proof -
  let ?E = "sample_env Android (Inr GRANTED) (Inr DENIED)"
  let ?R = "exec ?E [Event (Message (stringify_request ''all'')),
                     Event (Message (stringify_request ''camera''))] (mounted (0::nat))"
  have R: "?R = \<lparr>now = (mount (0::nat))\<lparr>os := 2, trace := [OsRequest ANDROID_CAMERA, OsRequest ANDROID_CAMERA]\<rparr>,
                 pending = [Awaiting Camera (Inr GRANTED) FromAllCamera,
                            Awaiting Camera (Inr GRANTED) FromHandler]\<rparr>"
    by (simp add: exec_def mounted_def mount_def handlePermissionRequest_start_def
          requestPermission_call_eq sample_defs sample_parse_def stringify_request_def)
  have v: "permissionsGranted (now (step ?E ?R (Settle 1))) ''camera'' = Some True"
    unfolding R by (simp add: requestPermission_resume_eq)
  have u: "permissionsGranted (now ?R) ''camera'' = Some False"
    unfolding R by (simp add: mount_def)
  have d: "permissionsGranted (now (step ?E ?R (Settle 1))) \<noteq> permissionsGranted (now ?R)"
  proof
    assume "permissionsGranted (now (step ?E ?R (Settle 1))) = permissionsGranted (now ?R)"
    with v have "permissionsGranted (now ?R) ''camera'' = Some True"
      by (simp only:)
    with u show False
      by (simp only: option.inject simp_thms)
  qed
  from permissionsGranted_keys [where R = ?R and E = ?E and s = "0::nat" and occ = "Settle 1",
         OF refl] d
  have "dom (permissionsGranted (now (step ?E ?R (Settle 1)))) = {''camera'', ''microphone''}"
    by blast
  with d show ?thesis
    by (simp add: R)
qed

section \<open>The wrapper around \<^verbatim>\<open>getUserMedia\<close>\<close>



end
